theory Spec2Isabelle
  imports Main "HOL-Library.Word"
begin

section \<open>JavaScript strings\<close>

text \<open>
  A JavaScript string is a sequence of UTF-16 code units. The regular expression of
  \<open>sanitizeFilename\<close> has no \<open>u\<close> flag, so it works on code units too, and every
  character that \<open>trim\<close> strips is a single code unit.
\<close>

type_synonym code_unit = "16 word"
type_synonym jsstring = "code_unit list"

definition lit :: "string \<Rightarrow> jsstring" where
  \<comment> \<open>an ASCII string literal of the source\<close>
  "lit cs = map of_char cs"

definition digit :: "nat \<Rightarrow> code_unit" where
  "digit d = of_nat (48 + d)"

function show_nat :: "nat \<Rightarrow> jsstring" where
  "show_nat n = (if n < 10 then [digit n] else show_nat (n div 10) @ [digit (n mod 10)])"
  by pat_completeness auto
termination
  by (relation "measure (\<lambda>n. n)") auto

declare show_nat.simps [simp del]

text \<open>
  The numbers that the source turns into text are catalog ids and readings of
  \<open>Date.now()\<close>: non-negative integers below \<open>2^53\<close>, which JavaScript represents exactly
  and prints as their decimal expansion.
\<close>

type_synonym safe_nat = "53 word"

definition show_number :: "safe_nat \<Rightarrow> jsstring" where
  \<comment> \<open>\<open>String(n)\<close>\<close>
  "show_number n = show_nat (unat n)"

section \<open>The download store (stores/downloadStore.js)\<close>

text \<open>
  The descriptor that callers pass to \<open>addToQueue\<close>: the components build it with the
  fields \<open>tidal_id\<close>, \<open>title\<close>, \<open>artist\<close>, \<open>album\<close> and \<open>tidal_exists\<close>.
\<close>

record track =
  tidal_id :: safe_nat
  title :: jsstring
  artist :: jsstring
  album :: jsstring
  tidal_exists :: bool

datatype status = Queued | Downloading | Completed | Failed

text \<open>
  A queue item is the descriptor spread into a new object with the lifecycle fields.
  A field that the object does not have yet (\<open>undefined\<close>) is \<open>None\<close>. The field
  \<open>id\<close> of the source is \<open>item_id\<close> here.
\<close>

record queue_item = track +
  item_id :: jsstring
  status :: status
  progress :: int
  addedAt :: int
  startedAt :: "int option"
  completedAt :: "int option"
  failedAt :: "int option"
  filename :: "jsstring option"
  error :: "jsstring option"

record store =
  queue :: "queue_item list"
  downloading :: "queue_item list"
  completed :: "queue_item list"
  failed :: "queue_item list"
  quality :: jsstring
  maxConcurrent :: int

definition initial_store :: store where
  "initial_store =
     \<lparr>queue = [], downloading = [], completed = [], failed = [],
      quality = lit ''LOSSLESS'', maxConcurrent = 3\<rparr>"

definition make_id :: "safe_nat \<Rightarrow> safe_nat \<Rightarrow> jsstring" where
  \<comment> \<open>the template \<open>`${track.tidal_id}-${Date.now()}`\<close>\<close>
  "make_id tid now = show_number tid @ lit ''-'' @ show_number now"

definition queued_item :: "track \<Rightarrow> safe_nat \<Rightarrow> safe_nat \<Rightarrow> queue_item" where
  \<comment> \<open>the object built in the \<open>map\<close> of \<open>addToQueue\<close>; \<open>n1\<close> and \<open>n2\<close> are its two
      readings of \<open>Date.now()\<close>\<close>
  "queued_item t n1 n2 =
     \<lparr>tidal_id = tidal_id t, title = title t, artist = artist t, album = album t,
      tidal_exists = tidal_exists t,
      item_id = make_id (tidal_id t) n1, status = Queued, progress = 0, addedAt = uint n2,
      startedAt = None, completedAt = None, failedAt = None, filename = None,
      error = None\<rparr>"

definition existingIds :: "store \<Rightarrow> safe_nat set" where
  "existingIds s =
     set (map tidal_id (queue s) @ map tidal_id (downloading s) @ map tidal_id (completed s))"

text \<open>
  \<open>Date.now()\<close> is an input: \<open>clock k\<close> is what the \<open>k\<close>-th reading made during one
  call of \<open>addToQueue\<close> returns. Each surviving descriptor reads the clock twice, first for
  its id, then for \<open>addedAt\<close>.
\<close>

fun stamp :: "nat \<Rightarrow> (nat \<Rightarrow> safe_nat) \<Rightarrow> track list \<Rightarrow> queue_item list" where
  "stamp k clock [] = []"
| "stamp k clock (t # ts) = queued_item t (clock k) (clock (Suc k)) # stamp (Suc (Suc k)) clock ts"

definition newTracks :: "(nat \<Rightarrow> safe_nat) \<Rightarrow> track list \<Rightarrow> store \<Rightarrow> queue_item list" where
  "newTracks clock tracks s =
     stamp 0 clock (filter (\<lambda>t. tidal_id t \<notin> existingIds s) tracks)"

definition addToQueue :: "(nat \<Rightarrow> safe_nat) \<Rightarrow> track list \<Rightarrow> store \<Rightarrow> store" where
  "addToQueue clock tracks s =
     (if length (newTracks clock tracks s) = 0 then s
      else s\<lparr>queue := queue s @ newTracks clock tracks s\<rparr>)"

text \<open>
  \<open>addToQueue\<close> returns nothing; the two counts are the numbers of its log message,
  \<open>newTracks.length\<close> and \<open>tracks.length - newTracks.length\<close>.
\<close>

definition addedCount :: "(nat \<Rightarrow> safe_nat) \<Rightarrow> track list \<Rightarrow> store \<Rightarrow> nat" where
  "addedCount clock tracks s = length (newTracks clock tracks s)"

definition duplicateCount :: "(nat \<Rightarrow> safe_nat) \<Rightarrow> track list \<Rightarrow> store \<Rightarrow> nat" where
  "duplicateCount clock tracks s = length tracks - length (newTracks clock tracks s)"

definition removeFromQueue :: "jsstring \<Rightarrow> store \<Rightarrow> store" where
  "removeFromQueue trackId s = s\<lparr>queue := filter (\<lambda>t. item_id t \<noteq> trackId) (queue s)\<rparr>"

definition startDownload :: "int \<Rightarrow> jsstring \<Rightarrow> store \<Rightarrow> store" where
  "startDownload now trackId s =
     (case find (\<lambda>t. item_id t = trackId) (queue s) of
        None \<Rightarrow> s
      | Some track \<Rightarrow>
          s\<lparr>queue := filter (\<lambda>t. item_id t \<noteq> trackId) (queue s),
            downloading := downloading s @ [track\<lparr>status := Downloading, startedAt := Some now\<rparr>]\<rparr>)"

definition updateProgress :: "jsstring \<Rightarrow> int \<Rightarrow> store \<Rightarrow> store" where
  "updateProgress trackId p s =
     s\<lparr>downloading :=
         map (\<lambda>t. if item_id t = trackId then t\<lparr>progress := p\<rparr> else t) (downloading s)\<rparr>"

definition completeDownload :: "int \<Rightarrow> jsstring \<Rightarrow> jsstring \<Rightarrow> store \<Rightarrow> store" where
  "completeDownload now trackId fname s =
     (case find (\<lambda>t. item_id t = trackId) (downloading s) of
        None \<Rightarrow> s
      | Some track \<Rightarrow>
          s\<lparr>downloading := filter (\<lambda>t. item_id t \<noteq> trackId) (downloading s),
            completed := completed s @
              [track\<lparr>status := Completed, progress := 100, completedAt := Some now,
                     filename := Some fname\<rparr>]\<rparr>)"

definition failDownload :: "int \<Rightarrow> jsstring \<Rightarrow> jsstring \<Rightarrow> store \<Rightarrow> store" where
  "failDownload now trackId err s =
     (case find (\<lambda>t. item_id t = trackId) (downloading s) of
        None \<Rightarrow> s
      | Some track \<Rightarrow>
          s\<lparr>downloading := filter (\<lambda>t. item_id t \<noteq> trackId) (downloading s),
            failed := failed s @
              [track\<lparr>status := Failed, error := Some err, failedAt := Some now\<rparr>]\<rparr>)"

definition retryFailed :: "jsstring \<Rightarrow> store \<Rightarrow> store" where
  "retryFailed trackId s =
     (case find (\<lambda>t. item_id t = trackId) (failed s) of
        None \<Rightarrow> s
      | Some track \<Rightarrow>
          s\<lparr>failed := filter (\<lambda>t. item_id t \<noteq> trackId) (failed s),
            queue := queue s @ [track\<lparr>status := Queued, error := None, progress := 0\<rparr>]\<rparr>)"

definition clearCompleted :: "store \<Rightarrow> store" where
  "clearCompleted s = s\<lparr>completed := []\<rparr>"

definition clearFailed :: "store \<Rightarrow> store" where
  "clearFailed s = s\<lparr>failed := []\<rparr>"

definition setQuality :: "jsstring \<Rightarrow> store \<Rightarrow> store" where
  "setQuality q s = s\<lparr>quality := q\<rparr>"

section \<open>The file name of a finished transfer (utils/downloadManager.js)\<close>

definition invalid :: "code_unit \<Rightarrow> bool" where
  \<comment> \<open>the character class \<open>[<>:"/\\|?*]\<close>\<close>
  "invalid c = (c \<in> {0x3C, 0x3E, 0x3A, 0x22, 0x2F, 0x5C, 0x7C, 0x3F, 0x2A})"

definition is_white :: "code_unit \<Rightarrow> bool" where
  \<comment> \<open>WhiteSpace and LineTerminator of ECMAScript, which \<open>trim\<close> strips\<close>
  "is_white c =
     (c \<in> {0x09, 0x0A, 0x0B, 0x0C, 0x0D, 0x20, 0xA0, 0x1680, 0x2028, 0x2029, 0x202F,
            0x205F, 0x3000, 0xFEFF} \<or> (0x2000 \<le> c \<and> c \<le> 0x200A))"

definition trim :: "jsstring \<Rightarrow> jsstring" where
  "trim s = rev (dropWhile is_white (rev (dropWhile is_white s)))"

definition replace_invalid :: "jsstring \<Rightarrow> jsstring" where
  \<comment> \<open>\<open>filename.replace(invalid, "_")\<close> with the global flag\<close>
  "replace_invalid s = map (\<lambda>c. if invalid c then 0x5F else c) s"

definition sanitizeFilename :: "jsstring \<Rightarrow> jsstring" where
  "sanitizeFilename fname = trim (replace_invalid fname)"

definition output_template :: "jsstring \<Rightarrow> jsstring \<Rightarrow> jsstring" where
  \<comment> \<open>the template \<open>`${track.artist} - ${track.title}.flac`\<close>\<close>
  "output_template a t = a @ lit '' - '' @ t @ lit ''.flac''"

definition output_filename :: "jsstring \<Rightarrow> jsstring \<Rightarrow> jsstring" where
  "output_filename a t = sanitizeFilename (output_template a t)"

section \<open>The download manager (utils/downloadManager.js)\<close>

text \<open>
  JavaScript runs one task at a time: an \<open>async\<close> function runs until its next
  \<open>await\<close>, is suspended there, and is resumed by the event loop when the awaited promise
  settles. The model keeps, for every call of \<open>start\<close> that entered the \<open>while\<close> loop,
  the \<open>await\<close> at which that call is suspended, with the local variables that are live
  there. What the awaited promise settles with is an input.
\<close>

datatype phase =
    Idle nat
      \<comment> \<open>\<open>await this.sleep(ms)\<close> in the loop of \<open>start\<close>\<close>
  | GetStream queue_item nat
      \<comment> \<open>\<open>await api.get(...)\<close>: the track and its controller\<close>
  | Fetching queue_item nat
      \<comment> \<open>\<open>await fetch(streamData.stream_url, {signal})\<close>\<close>
  | Reading queue_item nat nat nat
      \<comment> \<open>\<open>await reader.read()\<close>: track, controller, \<open>totalBytes\<close>, \<open>receivedBytes\<close>\<close>
  | RateLimit
      \<comment> \<open>\<open>await this.sleep(1000)\<close> at the end of \<open>downloadTrackClientSide\<close>\<close>
  | Exited
      \<comment> \<open>the loop has ended\<close>

datatype outcome =
    TimerFired
  | StreamData "jsstring option"
      \<comment> \<open>\<open>api.get\<close> resolved; the \<open>stream_url\<close> of its result, if any\<close>
  | Response bool "16 word" jsstring nat
      \<comment> \<open>\<open>fetch\<close> resolved: \<open>ok\<close>, \<open>status\<close> (an unsigned short), \<open>statusText\<close>, the
          parsed content length (0 when the header is missing)\<close>
  | Chunk nat int
      \<comment> \<open>\<open>reader.read()\<close> gave a chunk of that many bytes; the second argument is what
          \<open>Math.round((receivedBytes / totalBytes) * 100)\<close> then evaluates to in the
          floating-point arithmetic of the engine, which is not modelled\<close>
  | Done
      \<comment> \<open>\<open>reader.read()\<close> gave \<open>done\<close>\<close>
  | Rejected jsstring jsstring
      \<comment> \<open>the promise rejected with an error of that \<open>name\<close> and \<open>message\<close>\<close>

text \<open>
  \<open>activeDownloads\<close> is a \<open>Map\<close> from item ids to \<open>AbortController\<close> objects. A
  controller is a reference: \<open>controllers\<close> holds the \<open>aborted\<close> flag of every controller
  created so far, and a reference is an index into it.
\<close>

record system =
  st :: store
  isProcessing :: bool
  activeDownloads :: "(jsstring \<times> nat) list"
  controllers :: "bool list"
  loops :: "phase list"

definition initial_system :: system where
  "initial_system =
     \<lparr>st = initial_store, isProcessing = False, activeDownloads = [], controllers = [],
      loops = []\<rparr>"

fun map_set :: "'k \<Rightarrow> 'v \<Rightarrow> ('k \<times> 'v) list \<Rightarrow> ('k \<times> 'v) list" where
  "map_set k v [] = [(k, v)]"
| "map_set k v (e # m) = (if fst e = k then (k, v) # m else e # map_set k v m)"

definition map_delete :: "'k \<Rightarrow> ('k \<times> 'v) list \<Rightarrow> ('k \<times> 'v) list" where
  "map_delete k m = filter (\<lambda>e. fst e \<noteq> k) m"

definition abort :: "bool list \<Rightarrow> jsstring \<times> nat \<Rightarrow> bool list" where
  "abort cs e = cs[snd e := True]"

definition stop :: "system \<Rightarrow> system" where
  "stop s =
     s\<lparr>isProcessing := False,
       controllers := foldl abort (controllers s) (activeDownloads s),
       activeDownloads := []\<rparr>"

definition set_phase :: "nat \<Rightarrow> phase \<Rightarrow> phase list \<Rightarrow> phase list" where
  \<comment> \<open>loop \<open>k\<close> is now suspended at \<open>p\<close>; a loop that has just been entered is added\<close>
  "set_phase k p ps = (if k < length ps then ps[k := p] else ps @ [p])"

definition cancelled_text :: jsstring where
  "cancelled_text = lit ''Download cancelled''"

definition catch_error :: "int \<Rightarrow> queue_item \<Rightarrow> jsstring \<Rightarrow> jsstring \<Rightarrow> store \<Rightarrow> store" where
  \<comment> \<open>the \<open>catch\<close> block of \<open>downloadTrackClientSide\<close>\<close>
  "catch_error now track name msg s =
     (if name = lit ''AbortError'' then failDownload now (item_id track) cancelled_text s
      else failDownload now (item_id track) msg s)"

definition finish :: "nat \<Rightarrow> queue_item \<Rightarrow> system \<Rightarrow> system" where
  \<comment> \<open>the \<open>finally\<close> block, then the rate limit sleep\<close>
  "finish k track s =
     s\<lparr>activeDownloads := map_delete (item_id track) (activeDownloads s),
       loops := set_phase k RateLimit (loops s)\<rparr>"

definition transfer_failed ::
  "int \<Rightarrow> nat \<Rightarrow> queue_item \<Rightarrow> jsstring \<Rightarrow> jsstring \<Rightarrow> system \<Rightarrow> system" where
  "transfer_failed now k track name msg s =
     finish k track (s\<lparr>st := catch_error now track name msg (st s)\<rparr>)"

definition downloadTrackClientSide :: "int \<Rightarrow> nat \<Rightarrow> queue_item \<Rightarrow> system \<Rightarrow> system" where
  \<comment> \<open>up to its first \<open>await\<close>\<close>
  "downloadTrackClientSide now k track s =
     s\<lparr>st := startDownload now (item_id track) (st s),
       controllers := controllers s @ [False],
       activeDownloads := map_set (item_id track) (length (controllers s)) (activeDownloads s),
       loops := set_phase k (GetStream track (length (controllers s))) (loops s)\<rparr>"

definition loop_head :: "int \<Rightarrow> nat \<Rightarrow> system \<Rightarrow> system" where
  \<comment> \<open>one pass of \<open>while (this.isProcessing)\<close> in \<open>start\<close>, up to its \<open>await\<close>\<close>
  "loop_head now k s =
     (if \<not> isProcessing s then s\<lparr>loops := set_phase k Exited (loops s)\<rparr>
      else if int (length (downloading (st s))) < maxConcurrent (st s) \<and> length (queue (st s)) > 0
      then downloadTrackClientSide now k (queue (st s) ! 0) s
      else if length (downloading (st s)) = 0 \<and> length (queue (st s)) = 0
      then s\<lparr>loops := set_phase k (Idle 1000) (loops s)\<rparr>
      else s\<lparr>loops := set_phase k (Idle 500) (loops s)\<rparr>)"

definition start :: "int \<Rightarrow> system \<Rightarrow> system" where
  "start now s =
     (if isProcessing s then s
      else loop_head now (length (loops s)) (s\<lparr>isProcessing := True\<rparr>))"

definition aborted :: "nat \<Rightarrow> system \<Rightarrow> bool" where
  "aborted c s = (c < length (controllers s) \<and> controllers s ! c)"

definition http_error :: "16 word \<Rightarrow> jsstring \<Rightarrow> jsstring" where
  \<comment> \<open>the template \<open>`HTTP ${response.status}: ${response.statusText}`\<close>\<close>
  "http_error code text = lit ''HTTP '' @ show_nat (unat code) @ lit '': '' @ text"

text \<open>
  Resuming a loop. A \<open>fetch\<close> or a body read whose signal is aborted rejects with an
  \<open>AbortError\<close>, whatever the network would have delivered; \<open>api.get\<close> does not receive
  the signal. An outcome that the suspended \<open>await\<close> cannot have leaves the state as it is.
\<close>

fun resume :: "int \<Rightarrow> nat \<Rightarrow> outcome \<Rightarrow> phase \<Rightarrow> system \<Rightarrow> system" where
  "resume now k TimerFired (Idle ms) s = loop_head now k s"
| "resume now k TimerFired RateLimit s = loop_head now k s"
| "resume now k (StreamData None) (GetStream track c) s =
     transfer_failed now k track (lit ''Error'') (lit ''No stream URL returned'') s"
| "resume now k (StreamData (Some url)) (GetStream track c) s =
     (if url = [] then
        transfer_failed now k track (lit ''Error'') (lit ''No stream URL returned'') s
      else s\<lparr>loops := set_phase k (Fetching track c) (loops s)\<rparr>)"
| "resume now k (Rejected name msg) (GetStream track c) s =
     transfer_failed now k track name msg s"
| "resume now k out (Fetching track c) s =
     (if aborted c s then transfer_failed now k track (lit ''AbortError'') [] s
      else case out of
        Response ok code text totalBytes \<Rightarrow>
          if ok then s\<lparr>loops := set_phase k (Reading track c totalBytes 0) (loops s)\<rparr>
          else transfer_failed now k track (lit ''Error'') (http_error code text) s
      | Rejected name msg \<Rightarrow> transfer_failed now k track name msg s
      | _ \<Rightarrow> s)"
| "resume now k out (Reading track c totalBytes receivedBytes) s =
     (if aborted c s then transfer_failed now k track (lit ''AbortError'') [] s
      else case out of
        Chunk n rounded \<Rightarrow>
          s\<lparr>st := (if totalBytes > 0
                   then updateProgress (item_id track) rounded (st s)
                   else st s),
            loops := set_phase k (Reading track c totalBytes (receivedBytes + n)) (loops s)\<rparr>
      | Done \<Rightarrow>
          finish k track
            (s\<lparr>st := completeDownload now (item_id track)
                        (output_filename (artist track) (title track)) (st s)\<rparr>)
      | Rejected name msg \<Rightarrow> transfer_failed now k track name msg s
      | _ \<Rightarrow> s)"
| "resume now k out p s = s"

text \<open>
  What can happen to the system: a call of the interface that the components use, or the
  event loop resuming loop \<open>k\<close>. \<open>now\<close> is the reading of \<open>Date.now()\<close> during the step.
\<close>

datatype event =
    Enqueue "nat \<Rightarrow> safe_nat" "track list"
  | Remove jsstring
  | Retry jsstring
  | ClearCompleted
  | ClearFailed
  | SetQuality jsstring
  | Start int
  | Stop
  | Resume int nat outcome

fun step :: "event \<Rightarrow> system \<Rightarrow> system" where
  "step (Enqueue clock tracks) s = s\<lparr>st := addToQueue clock tracks (st s)\<rparr>"
| "step (Remove trackId) s = s\<lparr>st := removeFromQueue trackId (st s)\<rparr>"
| "step (Retry trackId) s = s\<lparr>st := retryFailed trackId (st s)\<rparr>"
| "step ClearCompleted s = s\<lparr>st := clearCompleted (st s)\<rparr>"
| "step ClearFailed s = s\<lparr>st := clearFailed (st s)\<rparr>"
| "step (SetQuality q) s = s\<lparr>st := setQuality q (st s)\<rparr>"
| "step (Start now) s = start now s"
| "step Stop s = stop s"
| "step (Resume now k out) s =
     (if k < length (loops s) then resume now k out (loops s ! k) s else s)"

fun run :: "event list \<Rightarrow> system \<Rightarrow> system" where
  "run [] s = s"
| "run (e # es) s = run es (step e s)"

fun is_Stop :: "event \<Rightarrow> bool" where
  "is_Stop Stop = True"
| "is_Stop e = False"

section \<open>Invariants of the manager\<close>

text \<open>
  While a single loop runs a transfer of track \<open>t\<close>, the only item that can be in
  \<open>downloading\<close> is the one that loop moved there.
\<close>

definition owns :: "queue_item \<Rightarrow> system \<Rightarrow> bool" where
  "owns t s =
     (length (downloading (st s)) \<le> 1 \<and>
      list_all (\<lambda>i. i = item_id t) (map item_id (downloading (st s))))"

fun phase_ok :: "phase \<Rightarrow> system \<Rightarrow> bool" where
  "phase_ok (GetStream t c) s = owns t s"
| "phase_ok (Fetching t c) s = owns t s"
| "phase_ok (Reading t c tb rb) s = owns t s"
| "phase_ok p s = (downloading (st s) = [])"

definition single_loop :: "system \<Rightarrow> bool" where
  "single_loop s =
     (case loops s of
        [] \<Rightarrow> \<not> isProcessing s \<and> downloading (st s) = []
      | [p] \<Rightarrow> isProcessing s \<and> phase_ok p s
      | _ \<Rightarrow> False)"

definition bounded :: "system \<Rightarrow> bool" where
  "bounded s = (int (length (downloading (st s))) \<le> maxConcurrent (st s))"







section \<open>Concrete inputs\<close>

definition frozen_clock :: "nat \<Rightarrow> safe_nat" where
  \<comment> \<open>every reading of \<open>Date.now()\<close> falls in the same millisecond\<close>
  "frozen_clock k = 1000"

definition numbered :: "safe_nat \<Rightarrow> string \<Rightarrow> track" where
  "numbered n t =
     \<lparr>tidal_id = n, title = lit t, artist = lit ''Artist'', album = lit ''Album'',
      tidal_exists = True\<rparr>"

definition track_A :: track where
  "track_A = numbered 1 ''A''"

definition track_B :: track where
  "track_B = numbered 1 ''B''"

definition five_tracks :: "track list" where
  "five_tracks =
     [numbered 1 ''A'', numbered 2 ''B'', numbered 3 ''C'', numbered 4 ''D'', numbered 5 ''E'']"

definition two_slots :: system where
  \<comment> \<open>the initial system with \<open>maxConcurrent\<close> set to 2\<close>
  "two_slots = initial_system\<lparr>st := initial_store\<lparr>maxConcurrent := 2\<rparr>\<rparr>"

definition failed_item :: "track \<Rightarrow> queue_item" where
  "failed_item t =
     (queued_item t 1000 1000)
       \<lparr>status := Failed, error := Some (lit ''HTTP 404: Not Found''), failedAt := Some 1000\<rparr>"

definition twice_failed :: store where
  \<comment> \<open>two failed items that carry the same id\<close>
  "twice_failed = initial_store\<lparr>failed := [failed_item track_A, failed_item track_B]\<rparr>"

definition some_url :: jsstring where
  "some_url = lit ''https://cdn.example/stream''"

definition two_in_flight :: "event list" where
  \<comment> \<open>a second \<open>start\<close> during the rate limit sleep of a stopped loop leaves two loops
      running, each with one transfer awaiting its \<open>fetch\<close>\<close>
  "two_in_flight =
     [Enqueue frozen_clock five_tracks,
      Start 1000,
      Resume 1001 0 (StreamData (Some some_url)),
      Stop,
      Resume 1002 0 (Rejected (lit ''AbortError'') (lit ''The user aborted a request.'')),
      Start 1003,
      Resume 2002 0 TimerFired,
      Resume 2004 0 (StreamData (Some some_url)),
      Resume 2005 1 (StreamData (Some some_url))]"

definition both_queued :: store where
  \<comment> \<open>one call of \<open>addToQueue\<close> with two descriptors of catalog id 1\<close>
  "both_queued = addToQueue frozen_clock [track_A, track_B] initial_store"

definition busy_store :: store where
  \<comment> \<open>A is downloading, B is queued\<close>
  "busy_store =
     startDownload 1001 (lit ''1-1000'')
       (addToQueue frozen_clock [numbered 1 ''A'', numbered 2 ''B''] initial_store)"

definition once_failed :: store where
  \<comment> \<open>B is queued, A and C have failed\<close>
  "once_failed =
     initial_store
       \<lparr>queue := [queued_item (numbered 2 ''B'') 1000 1000],
        failed := [failed_item (numbered 1 ''A''), failed_item (numbered 3 ''C'')]\<rparr>"

definition item_of :: "safe_nat \<Rightarrow> string \<Rightarrow> queue_item" where
  \<comment> \<open>a track of \<open>five_tracks\<close> as \<open>addToQueue\<close> queued it\<close>
  "item_of n t = queued_item (numbered n t) 1000 1000"

definition abort_rejection :: outcome where
  "abort_rejection = Rejected (lit ''AbortError'') (lit ''The user aborted a request.'')"

definition in_flight :: system where
  "in_flight = run two_in_flight initial_system"


definition first_dispatch :: "event list" where
  "first_dispatch = [Enqueue frozen_clock five_tracks, Start 1000]"

section \<open>Lemmas about lists of items\<close>

lemma find_absent: "i \<notin> item_id ` set xs \<Longrightarrow> find (\<lambda>t. item_id t = i) xs = None"
  by (induction xs) auto

lemma map_absent:
  "i \<notin> item_id ` set xs \<Longrightarrow> map (\<lambda>t. if item_id t = i then f t else t) xs = xs"
  by (induction xs) auto

lemma filter_absent: "i \<notin> item_id ` set xs \<Longrightarrow> filter (\<lambda>t. item_id t \<noteq> i) xs = xs"
  by (induction xs) auto

lemma find_None_filter:
  "find (\<lambda>t. item_id t = i) xs = None \<Longrightarrow> filter (\<lambda>t. item_id t \<noteq> i) xs = xs"
  by (induction xs) (auto split: if_splits)

lemma find_Some_id: "find (\<lambda>t. item_id t = i) xs = Some x \<Longrightarrow> item_id x = i \<and> x \<in> set xs"
  by (induction xs) (auto split: if_splits)

lemma all_same_filter:
  "list_all (\<lambda>i. i = j) (map item_id xs) \<Longrightarrow> filter (\<lambda>x. item_id x \<noteq> j) xs = []"
  by (induction xs) auto

lemma distinct_filter_le_one:
  "distinct (map f xs) \<Longrightarrow> length (filter (\<lambda>t. f t = i) xs) \<le> 1"
  by (induction xs) (auto simp: filter_empty_conv image_iff)

lemma length_filter_int: "int (length xs) \<le> m \<Longrightarrow> int (length (filter P xs)) \<le> m"
  using length_filter_le [of P xs] by linarith

lemma filter_single:
  "filter P xs = [x] \<Longrightarrow>
   \<exists>pre post. xs = pre @ x # post \<and> filter (\<lambda>t. \<not> P t) xs = pre @ post \<and> find P xs = Some x"
proof (induction xs)
  case Nil
  then show ?case by simp
next
  case (Cons a xs)
  show ?case
  proof (cases "P a")
    case True
    with Cons.prems have ax: "a = x" and none: "filter P xs = []" by auto
    from none have "filter (\<lambda>t. \<not> P t) xs = xs"
      by (induction xs) (auto split: if_splits)
    then have "a # xs = [] @ x # xs \<and> filter (\<lambda>t. \<not> P t) (a # xs) = [] @ xs \<and>
        find P (a # xs) = Some x"
      using True ax by simp
    then show ?thesis by blast
  next
    case False
    with Cons.prems have "filter P xs = [x]" by simp
    from Cons.IH [OF this] obtain pre post where
      "xs = pre @ x # post" "filter (\<lambda>t. \<not> P t) xs = pre @ post" "find P xs = Some x"
      by blast
    then have "a # xs = (a # pre) @ x # post \<and>
        filter (\<lambda>t. \<not> P t) (a # xs) = (a # pre) @ post \<and> find P (a # xs) = Some x"
      using False by simp
    then show ?thesis by blast
  qed
qed

lemma make_id_1_1000: "make_id 1 1000 = lit ''1-1000''"
  by (simp add: make_id_def show_number_def show_nat.simps digit_def lit_def)

section \<open>The concrete inputs, evaluated\<close>

lemmas store_eval =
  make_id_def show_number_def show_nat.simps digit_def lit_def addToQueue_def newTracks_def
  existingIds_def initial_store_def numbered_def queued_item_def frozen_clock_def
  five_tracks_def track_A_def track_B_def item_of_def failed_item_def startDownload_def
  failDownload_def retryFailed_def removeFromQueue_def

lemmas manager_eval =
  initial_system_def start_def stop_def loop_head_def downloadTrackClientSide_def
  set_phase_def some_url_def transfer_failed_def finish_def catch_error_def aborted_def
  abort_def map_delete_def cancelled_text_def abort_rejection_def

lemma item_of_id:
  "item_id (item_of 1 t) = lit ''1-1000''"
  "item_id (item_of 2 t) = lit ''2-1000''"
  "item_id (item_of 3 t) = lit ''3-1000''"
  "item_id (item_of 4 t) = lit ''4-1000''"
  "item_id (item_of 5 t) = lit ''5-1000''"
  by (simp_all add: store_eval)

lemma failed_item_id:
  "item_id (failed_item (numbered 1 t)) = lit ''1-1000''"
  "item_id (failed_item (numbered 3 t)) = lit ''3-1000''"
  by (simp_all add: store_eval)

lemma busy_store_eval:
  "map item_id (queue busy_store) = [lit ''2-1000'']"
  "map item_id (downloading busy_store) = [lit ''1-1000'']"
  by (simp_all add: busy_store_def store_eval)

lemma once_failed_filter:
  "filter (\<lambda>t. item_id t = lit ''1-1000'') (failed once_failed) =
     [failed_item (numbered 1 ''A'')]"
  by (simp add: once_failed_def failed_item_id) (simp add: lit_def)

lemma first_dispatch_eval:
  "maxConcurrent (st (run first_dispatch two_slots)) = 2"
  "length (downloading (st (run first_dispatch two_slots))) = 1"
  "length (queue (st (run first_dispatch two_slots))) = 4"
  by (simp_all add: first_dispatch_def two_slots_def store_eval manager_eval)

lemma in_flight_state:
  "in_flight =
     \<lparr>st =
        \<lparr>queue = [item_of 4 ''D'', item_of 5 ''E''],
         downloading =
           [(item_of 2 ''B'')\<lparr>status := Downloading, startedAt := Some 1003\<rparr>,
            (item_of 3 ''C'')\<lparr>status := Downloading, startedAt := Some 2002\<rparr>],
         completed = [],
         failed =
           [(item_of 1 ''A'')
              \<lparr>status := Failed, startedAt := Some 1000, failedAt := Some 1002,
               error := Some (lit ''Download cancelled'')\<rparr>],
         quality = lit ''LOSSLESS'', maxConcurrent = 3\<rparr>,
      isProcessing = True,
      activeDownloads = [(lit ''2-1000'', 1), (lit ''3-1000'', 2)],
      controllers = [True, False, False],
      loops = [Fetching (item_of 3 ''C'') 2, Fetching (item_of 2 ''B'') 1]\<rparr>"
  by (simp add: in_flight_def two_in_flight_def store_eval manager_eval)


section \<open>The store actions\<close>

subsection \<open>What each action leaves alone\<close>

lemma addToQueue_unchanged [simp]:
  "downloading (addToQueue clock ts s) = downloading s"
  "completed (addToQueue clock ts s) = completed s"
  "failed (addToQueue clock ts s) = failed s"
  "maxConcurrent (addToQueue clock ts s) = maxConcurrent s"
  by (simp_all add: addToQueue_def)

lemma removeFromQueue_unchanged [simp]:
  "downloading (removeFromQueue i s) = downloading s"
  "completed (removeFromQueue i s) = completed s"
  "failed (removeFromQueue i s) = failed s"
  "maxConcurrent (removeFromQueue i s) = maxConcurrent s"
  by (simp_all add: removeFromQueue_def)

lemma retryFailed_unchanged [simp]:
  "downloading (retryFailed i s) = downloading s"
  "completed (retryFailed i s) = completed s"
  "maxConcurrent (retryFailed i s) = maxConcurrent s"
  by (simp_all add: retryFailed_def split: option.splits)

lemma clear_unchanged [simp]:
  "downloading (clearCompleted s) = downloading s"
  "maxConcurrent (clearCompleted s) = maxConcurrent s"
  "downloading (clearFailed s) = downloading s"
  "maxConcurrent (clearFailed s) = maxConcurrent s"
  "downloading (setQuality q s) = downloading s"
  "maxConcurrent (setQuality q s) = maxConcurrent s"
  by (simp_all add: clearCompleted_def clearFailed_def setQuality_def)

lemma failDownload_downloading [simp]:
  "downloading (failDownload now i e s) = filter (\<lambda>t. item_id t \<noteq> i) (downloading s)"
  "maxConcurrent (failDownload now i e s) = maxConcurrent s"
  by (simp_all add: failDownload_def find_None_filter split: option.splits)


lemma completeDownload_downloading [simp]:
  "downloading (completeDownload now i f s) = filter (\<lambda>t. item_id t \<noteq> i) (downloading s)"
  "maxConcurrent (completeDownload now i f s) = maxConcurrent s"
  by (simp_all add: completeDownload_def find_None_filter split: option.splits)

lemma updateProgress_downloading [simp]:
  "length (downloading (updateProgress i p s)) = length (downloading s)"
  "map item_id (downloading (updateProgress i p s)) = map item_id (downloading s)"
  "maxConcurrent (updateProgress i p s) = maxConcurrent s"
  by (simp_all add: updateProgress_def)

lemma catch_error_downloading [simp]:
  "downloading (catch_error now t name msg s) =
     filter (\<lambda>x. item_id x \<noteq> item_id t) (downloading s)"
  "maxConcurrent (catch_error now t name msg s) = maxConcurrent s"
  by (simp_all add: catch_error_def)

lemma startDownload_maxConcurrent [simp]:
  "maxConcurrent (startDownload now i s) = maxConcurrent s"
  by (simp add: startDownload_def split: option.splits)

lemma startDownload_length:
  "length (downloading (startDownload now i s)) \<le> Suc (length (downloading s))"
  by (simp add: startDownload_def split: option.splits)

lemma startDownload_from_empty:
  "downloading s = [] \<Longrightarrow>
   length (downloading (startDownload now i s)) \<le> 1 \<and>
   list_all (\<lambda>j. j = i) (map item_id (downloading (startDownload now i s)))"
  by (auto simp: startDownload_def dest: find_Some_id split: option.splits)

subsection \<open>Enqueueing\<close>

lemma stamp_tidal_id: "map tidal_id (stamp k clock ts) = map tidal_id ts"
  by (induction ts arbitrary: k) (simp_all add: queued_item_def)

lemma length_stamp: "length (stamp k clock ts) = length ts"
  by (induction ts arbitrary: k) simp_all

lemma newTracks_skips_existing:
  "set (map tidal_id (newTracks clock tracks s)) \<inter> existingIds s = {}"
  by (auto simp: newTracks_def stamp_tidal_id)

lemma counts_add_up:
  "addedCount clock tracks s + duplicateCount clock tracks s = length tracks"
  by (simp add: addedCount_def duplicateCount_def newTracks_def length_stamp)

text \<open>
  Claim C1. \<open>addToQueue\<close> skips the descriptors whose catalog id is already in \<open>queue\<close>,
  \<open>downloading\<close> or \<open>completed\<close>, and afterwards no catalog id occurs twice there, also
  when two descriptors of the batch share a catalog id: enqueueing A and B, both of catalog
  id 1, adds one item and counts one duplicate. The set of existing ids is computed once,
  before the batch is filtered, so the code keeps both: on the empty store the queue then
  holds A and B, two items are added and no duplicate is counted.
\<close>

theorem addToQueue_keeps_batch_duplicates:
  "map title (queue (addToQueue frozen_clock [track_A, track_B] initial_store)) =
     [lit ''A'', lit ''B''] \<and>
   map tidal_id (queue (addToQueue frozen_clock [track_A, track_B] initial_store)) = [1, 1] \<and>
   addedCount frozen_clock [track_A, track_B] initial_store = 2 \<and>
   duplicateCount frozen_clock [track_A, track_B] initial_store = 0"
  by (simp add: addToQueue_def newTracks_def existingIds_def initial_store_def track_A_def
      track_B_def numbered_def queued_item_def addedCount_def duplicateCount_def)

text \<open>
  Claim C2. Every id that \<open>addToQueue\<close> assigns is unique, also among the items of one
  call. The id is the catalog id followed by the reading of the clock, so the two items
  that one call creates for the same catalog id within one millisecond carry the same id.
\<close>

theorem addToQueue_repeats_id:
  "map item_id (queue (addToQueue frozen_clock [track_A, track_B] initial_store)) =
     [lit ''1-1000'', lit ''1-1000''] \<and>
   \<not> distinct (map item_id (queue (addToQueue frozen_clock [track_A, track_B] initial_store)))"
  by (simp add: addToQueue_def newTracks_def existingIds_def initial_store_def track_A_def
      track_B_def numbered_def queued_item_def frozen_clock_def make_id_1_1000)

subsection \<open>Moving an item between collections\<close>

text \<open>
  Claim C9. \<open>startDownload\<close>, \<open>updateProgress\<close>, \<open>completeDownload\<close> and \<open>failDownload\<close>
  leave the whole store as it is when no item of the collection they read from
  (\<open>queue\<close> for the first, \<open>downloading\<close> for the others) has the given id.
\<close>

theorem absent_id_is_noop:
  "(trackId \<notin> item_id ` set (queue s) \<longrightarrow> startDownload now trackId s = s) \<and>
   (trackId \<notin> item_id ` set (downloading s) \<longrightarrow>
      updateProgress trackId p s = s \<and>
      completeDownload now trackId fname s = s \<and>
      failDownload now trackId err s = s)"
  by (simp add: startDownload_def updateProgress_def completeDownload_def failDownload_def
      find_absent map_absent)

text \<open>
  An instance: A is downloading, B is queued, and no item has the id \<open>3-1000\<close>.
\<close>

theorem absent_id_is_noop_witness:
  "lit ''3-1000'' \<notin> item_id ` set (queue busy_store) \<and>
   startDownload 1002 (lit ''3-1000'') busy_store = busy_store \<and>
   lit ''3-1000'' \<notin> item_id ` set (downloading busy_store) \<and>
   updateProgress (lit ''3-1000'') 50 busy_store = busy_store \<and>
   completeDownload 1002 (lit ''3-1000'') (lit ''C.flac'') busy_store = busy_store \<and>
   failDownload 1002 (lit ''3-1000'') (lit ''HTTP 404: Not Found'') busy_store = busy_store"
proof -
  have q: "lit ''3-1000'' \<notin> item_id ` set (queue busy_store)"
    using busy_store_eval(1) by (simp flip: set_map add: lit_def)
  have d: "lit ''3-1000'' \<notin> item_id ` set (downloading busy_store)"
    using busy_store_eval(2) by (simp flip: set_map add: lit_def)
  show ?thesis
    using q d
      absent_id_is_noop [of "lit ''3-1000''" busy_store 1002 50 "lit ''C.flac''"
        "lit ''HTTP 404: Not Found''"]
    by simp
qed

text \<open>
  Claim C5, as amended. For every store whose \<open>failed\<close> collection contains exactly one
  item with the given id, \<open>retryFailed\<close> takes that item, and nothing else, out of
  \<open>failed\<close> and appends it to \<open>queue\<close> with progress 0 and no error; its catalog id,
  title and artist are unchanged, and so are \<open>downloading\<close> and \<open>completed\<close>.
\<close>

theorem retryFailed_moves_item:
  assumes "filter (\<lambda>t. item_id t = trackId) (failed s) = [x]"
  shows "\<exists>pre post moved.
           failed s = pre @ x # post \<and>
           failed (retryFailed trackId s) = pre @ post \<and>
           queue (retryFailed trackId s) = queue s @ [moved] \<and>
           moved = x\<lparr>status := Queued, error := None, progress := 0\<rparr> \<and>
           progress moved = 0 \<and> error moved = None \<and>
           tidal_id moved = tidal_id x \<and> title moved = title x \<and> artist moved = artist x \<and>
           downloading (retryFailed trackId s) = downloading s \<and>
           completed (retryFailed trackId s) = completed s"
proof -
  from filter_single [OF assms] obtain pre post where
    d: "failed s = pre @ x # post" and
    r: "filter (\<lambda>t. item_id t \<noteq> trackId) (failed s) = pre @ post" and
    f: "find (\<lambda>t. item_id t = trackId) (failed s) = Some x" by blast
  have f': "failed (retryFailed trackId s) = pre @ post"
    by (simp add: retryFailed_def f r)
  have q': "queue (retryFailed trackId s) =
      queue s @ [x\<lparr>status := Queued, error := None, progress := 0\<rparr>]"
    by (simp add: retryFailed_def f)
  show ?thesis
    apply (intro exI conjI)
              apply (rule d)
             apply (rule f')
            apply (rule q')
           apply (rule refl)
          apply simp_all
    done
qed

text \<open>
  An instance: A and C have failed, B is queued, and A is retried.
\<close>

theorem retryFailed_moves_item_witness:
  "filter (\<lambda>t. item_id t = lit ''1-1000'') (failed once_failed) =
     [failed_item (numbered 1 ''A'')] \<and>
   (\<exists>pre post moved.
      failed once_failed = pre @ failed_item (numbered 1 ''A'') # post \<and>
      failed (retryFailed (lit ''1-1000'') once_failed) = pre @ post \<and>
      queue (retryFailed (lit ''1-1000'') once_failed) = queue once_failed @ [moved] \<and>
      moved =
        (failed_item (numbered 1 ''A''))\<lparr>status := Queued, error := None, progress := 0\<rparr> \<and>
      progress moved = 0 \<and> error moved = None \<and>
      tidal_id moved = tidal_id (failed_item (numbered 1 ''A'')) \<and>
      title moved = title (failed_item (numbered 1 ''A'')) \<and>
      artist moved = artist (failed_item (numbered 1 ''A'')) \<and>
      downloading (retryFailed (lit ''1-1000'') once_failed) = downloading once_failed \<and>
      completed (retryFailed (lit ''1-1000'') once_failed) = completed once_failed)"
  using once_failed_filter retryFailed_moves_item [OF once_failed_filter] by blast

text \<open>
  Where two failed items carry the same id, the claim as it was stated fails: both leave
  \<open>failed\<close>, and only the first of them reaches \<open>queue\<close>.
\<close>

theorem retryFailed_shared_id_counterexample:
  "map item_id (failed twice_failed) = [lit ''1-1000'', lit ''1-1000''] \<and>
   map title (failed twice_failed) = [lit ''A'', lit ''B''] \<and>
   failed (retryFailed (lit ''1-1000'') twice_failed) = [] \<and>
   map title (queue (retryFailed (lit ''1-1000'') twice_failed)) = [lit ''A''] \<and>
   length (failed (retryFailed (lit ''1-1000'') twice_failed)) \<noteq>
     length (failed twice_failed) - 1"
  by (simp add: twice_failed_def store_eval)

text \<open>
  Claim C10, as amended. Provided that no two items of \<open>queue\<close> and \<open>downloading\<close>
  share an id, \<open>removeFromQueue\<close> removes at most the one matching item from \<open>queue\<close>,
  and for an id currently in \<open>downloading\<close> it changes no state. For every id, and with
  or without that proviso, it removes only items that carry the id, leaves
  \<open>downloading\<close>, \<open>completed\<close> and \<open>failed\<close> unchanged and does not touch the manager,
  so that no transfer in flight is cancelled.
\<close>

theorem removeFromQueue_frame:
  "queue (st (step (Remove trackId) s)) = filter (\<lambda>t. item_id t \<noteq> trackId) (queue (st s)) \<and>
   downloading (st (step (Remove trackId) s)) = downloading (st s) \<and>
   completed (st (step (Remove trackId) s)) = completed (st s) \<and>
   failed (st (step (Remove trackId) s)) = failed (st s) \<and>
   isProcessing (step (Remove trackId) s) = isProcessing s \<and>
   activeDownloads (step (Remove trackId) s) = activeDownloads s \<and>
   controllers (step (Remove trackId) s) = controllers s \<and>
   loops (step (Remove trackId) s) = loops s \<and>
   (distinct (map item_id (queue (st s) @ downloading (st s))) \<longrightarrow>
      length (queue (st s)) \<le> Suc (length (queue (st (step (Remove trackId) s)))) \<and>
      (trackId \<in> item_id ` set (downloading (st s)) \<longrightarrow> step (Remove trackId) s = s))"
proof -
  have 1: "length (queue (st s)) \<le>
      Suc (length (filter (\<lambda>t. item_id t \<noteq> trackId) (queue (st s))))"
    if "distinct (map item_id (queue (st s)))"
    using distinct_filter_le_one [OF that, of trackId]
      sum_length_filter_compl [of "\<lambda>t. item_id t = trackId" "queue (st s)"]
    by simp
  have 2: "trackId \<notin> item_id ` set (queue (st s))"
    if "distinct (map item_id (queue (st s) @ downloading (st s)))"
      and "trackId \<in> item_id ` set (downloading (st s))"
    using that by auto
  show ?thesis
    using 1 2 by (auto simp: removeFromQueue_def filter_absent)
qed

text \<open>
  An instance: D and E are queued while B and C are downloading. Removing D takes one item
  out of \<open>queue\<close>; removing B, which is downloading, changes nothing.
\<close>

theorem removeFromQueue_frame_witness:
  "distinct (map item_id (queue (st in_flight) @ downloading (st in_flight))) \<and>
   length (queue (st in_flight)) \<le>
     Suc (length (queue (st (step (Remove (lit ''4-1000'')) in_flight)))) \<and>
   downloading (st (step (Remove (lit ''4-1000'')) in_flight)) = downloading (st in_flight) \<and>
   loops (step (Remove (lit ''4-1000'')) in_flight) = loops in_flight \<and>
   lit ''2-1000'' \<in> item_id ` set (downloading (st in_flight)) \<and>
   step (Remove (lit ''2-1000'')) in_flight = in_flight"
proof -
  have d: "distinct (map item_id (queue (st in_flight) @ downloading (st in_flight)))"
    by (simp add: in_flight_state item_of_id) (simp add: lit_def)
  have n: "lit ''2-1000'' \<in> item_id ` set (downloading (st in_flight))"
    by (simp add: in_flight_state item_of_id)
  note A = removeFromQueue_frame [of "lit ''4-1000''" in_flight]
  have a1: "length (queue (st in_flight)) \<le>
      Suc (length (queue (st (step (Remove (lit ''4-1000'')) in_flight))))"
    using A d by blast
  have a2: "downloading (st (step (Remove (lit ''4-1000'')) in_flight)) =
      downloading (st in_flight)"
    using A by blast
  have a3: "loops (step (Remove (lit ''4-1000'')) in_flight) = loops in_flight"
    using A by blast
  have b: "step (Remove (lit ''2-1000'')) in_flight = in_flight"
    using removeFromQueue_frame [of "lit ''2-1000''" in_flight] d n by blast
  show ?thesis
    using d n a1 a2 a3 b by (intro conjI)
qed

text \<open>
  Where two queued items carry the same id, as after one \<open>addToQueue\<close> of A and B with
  catalog id 1, the claim as it was stated fails: one call removes both.
\<close>

theorem removeFromQueue_shared_id_counterexample:
  "map item_id (queue both_queued) = [lit ''1-1000'', lit ''1-1000''] \<and>
   map title (queue both_queued) = [lit ''A'', lit ''B''] \<and>
   queue (removeFromQueue (lit ''1-1000'') both_queued) = [] \<and>
   length (queue both_queued) -
     length (queue (removeFromQueue (lit ''1-1000'') both_queued)) = 2"
  by (simp add: both_queued_def store_eval)

section \<open>The file name\<close>

lemma replace_invalid_append: "replace_invalid (a @ b) = replace_invalid a @ replace_invalid b"
  by (simp add: replace_invalid_def)

lemma replace_invalid_separator: "replace_invalid (lit '' - '') = lit '' - ''"
  by (simp add: replace_invalid_def lit_def invalid_def)

lemma replace_invalid_extension: "replace_invalid (lit ''.flac'') = lit ''.flac''"
  by (simp add: replace_invalid_def lit_def invalid_def)

lemma dropWhile_keeps_last:
  "xs \<noteq> [] \<Longrightarrow> \<not> P (last xs) \<Longrightarrow> dropWhile P xs \<noteq> [] \<and> last (dropWhile P xs) = last xs"
  by (induction xs) (auto split: if_splits)

lemma dropWhile_rev_last: "ys \<noteq> [] \<Longrightarrow> \<not> P (last ys) \<Longrightarrow> dropWhile P (rev ys) = rev ys"
  by (cases ys rule: rev_cases) auto

lemma trim_no_trailing:
  assumes "xs \<noteq> []" and "\<not> is_white (last xs)"
  shows "trim xs = dropWhile is_white xs"
proof -
  have "dropWhile is_white xs \<noteq> []" and "\<not> is_white (last (dropWhile is_white xs))"
    using dropWhile_keeps_last [of xs is_white] assms by simp_all
  then have "dropWhile is_white (rev (dropWhile is_white xs)) = rev (dropWhile is_white xs)"
    by (rule dropWhile_rev_last)
  then show ?thesis by (simp add: trim_def)
qed

lemma extension_last: "\<not> is_white (last (ys @ lit ''.flac''))"
  by (simp add: lit_def is_white_def)

lemma replaced_not_white: "\<not> is_white c \<Longrightarrow> \<not> is_white (if invalid c then 0x5F else c)"
  by (simp add: is_white_def)

text \<open>
  Claim C8, as amended. For every artist and title, the file name of a finished local
  transfer is the template \<open>{artist} - {title}.flac\<close> with every occurrence of
  \<open>< > : " / \ | ? *\<close> replaced by \<open>_\<close>, and then stripped of leading white space (the
  \<open>trim\<close> finds no trailing white space after \<open>.flac\<close>). When the artist starts with a
  character that is not white space, it is the template with the replacements and nothing
  else.
\<close>

theorem output_filename_shape:
  "output_filename a t =
     dropWhile is_white (replace_invalid a @ lit '' - '' @ replace_invalid t @ lit ''.flac'') \<and>
   (a \<noteq> [] \<and> \<not> is_white (hd a) \<longrightarrow>
      output_filename a t = replace_invalid (output_template a t))"
proof -
  let ?r = "replace_invalid a @ lit '' - '' @ replace_invalid t @ lit ''.flac''"
  have r: "replace_invalid (output_template a t) = ?r"
    by (simp add: output_template_def replace_invalid_append replace_invalid_separator
        replace_invalid_extension)
  have "?r \<noteq> []" by (simp add: lit_def)
  moreover have "\<not> is_white (last ?r)"
    using extension_last [of "replace_invalid a @ lit '' - '' @ replace_invalid t"] by simp
  ultimately have t: "trim ?r = dropWhile is_white ?r" by (rule trim_no_trailing)
  have 1: "output_filename a t = dropWhile is_white ?r"
    by (simp add: output_filename_def sanitizeFilename_def r t)
  have 2: "dropWhile is_white ?r = ?r" if "a \<noteq> []" "\<not> is_white (hd a)"
  proof -
    from that(1) obtain c cs where a: "a = c # cs" by (auto simp: neq_Nil_conv)
    then show ?thesis using that(2) replaced_not_white [of c]
      by (simp add: replace_invalid_def)
  qed
  show ?thesis using 1 2 r by simp
qed

text \<open>
  An instance with characters to replace, and an artist with a leading space, where the
  file name is not the template with the replacements: the space is gone.
\<close>

theorem output_filename_shape_witness:
  "lit ''AC/DC'' \<noteq> [] \<and> \<not> is_white (hd (lit ''AC/DC'')) \<and>
   output_filename (lit ''AC/DC'') (lit ''Who Made Who?'') = lit ''AC_DC - Who Made Who_.flac''"
  using output_filename_shape [of "lit ''AC/DC''" "lit ''Who Made Who?''"]
  by (simp add: output_template_def replace_invalid_def lit_def invalid_def is_white_def)

theorem output_filename_counterexample:
  "output_filename (lit '' A'') (lit ''B'') = lit ''A - B.flac'' \<and>
   replace_invalid (output_template (lit '' A'') (lit ''B'')) = lit '' A - B.flac'' \<and>
   output_filename (lit '' A'') (lit ''B'') \<noteq>
     replace_invalid (output_template (lit '' A'') (lit ''B''))"
  by (simp add: output_filename_def output_template_def sanitizeFilename_def trim_def
      replace_invalid_def lit_def invalid_def is_white_def)

section \<open>The manager\<close>

lemma st_finish [simp]: "st (finish k t s) = st s"
  by (simp add: finish_def)

lemma st_transfer_failed [simp]:
  "st (transfer_failed now k t name msg s) = catch_error now t name msg (st s)"
  by (simp add: transfer_failed_def)

subsection \<open>The bound on downloading\<close>

lemma bounded_loop_head: "bounded s \<Longrightarrow> bounded (loop_head now k s)"
  using startDownload_length [of now "item_id (queue (st s) ! 0)" "st s"]
  by (auto simp: bounded_def loop_head_def downloadTrackClientSide_def)

lemma bounded_resume: "bounded s \<Longrightarrow> bounded (resume now k out p s)"
proof (induction now k out p s rule: resume.induct)
  case (1 now k ms s)
  then show ?case by (simp add: bounded_loop_head)
next
  case (2 now k s)
  then show ?case by (simp add: bounded_loop_head)
qed (auto simp: bounded_def length_filter_int split: outcome.splits)

lemma bounded_step: "bounded s \<Longrightarrow> bounded (step e s)"
proof (cases e)
  case (Start now)
  assume "bounded s"
  then have "bounded (s\<lparr>isProcessing := True\<rparr>)" by (simp add: bounded_def)
  then show ?thesis using \<open>bounded s\<close> Start by (simp add: start_def bounded_loop_head)
next
  case (Resume now k out)
  assume "bounded s"
  then show ?thesis using Resume by (simp add: bounded_resume)
qed (auto simp: bounded_def stop_def)

lemma bounded_run: "bounded s \<Longrightarrow> bounded (run evs s)"
  by (induction evs arbitrary: s) (auto simp: bounded_step)

text \<open>
  Claim C6. In every state that a sequence of enqueue, start and stop operations reaches
  (with the other calls of the interface and the resumptions of the transfers in
  between, in any order), \<open>downloading\<close> holds at most \<open>maxConcurrent\<close> items, provided
  it did at the beginning, as in the initial state.
\<close>

theorem downloading_bounded:
  "int (length (downloading (st s))) \<le> maxConcurrent (st s) \<Longrightarrow>
   int (length (downloading (st (run evs s)))) \<le> maxConcurrent (st (run evs s))"
  using bounded_run [of s evs] by (simp add: bounded_def)

text \<open>
  An instance: from the initial state, with \<open>maxConcurrent\<close> 3, a run that stops and
  starts again reaches two transfers in flight.
\<close>

theorem downloading_bounded_witness:
  "int (length (downloading (st initial_system))) \<le> maxConcurrent (st initial_system) \<and>
   int (length (downloading (st (run two_in_flight initial_system)))) \<le>
     maxConcurrent (st (run two_in_flight initial_system)) \<and>
   length (downloading (st (run two_in_flight initial_system))) = 2"
proof -
  have h: "int (length (downloading (st initial_system))) \<le> maxConcurrent (st initial_system)"
    by (simp add: initial_system_def initial_store_def)
  have "length (downloading (st in_flight)) = 2"
    by (simp add: in_flight_state)
  then have "length (downloading (st (run two_in_flight initial_system))) = 2"
    by (simp add: in_flight_def)
  then show ?thesis using h downloading_bounded [OF h, of two_in_flight] by simp
qed

subsection \<open>One loop runs one transfer at a time\<close>

lemma single_loop_head:
  assumes "isProcessing s" and "downloading (st s) = []" and "length (loops s) \<le> 1"
    and "k = 0"
  shows "single_loop (loop_head now k s)"
proof -
  have ps: "\<And>p. set_phase 0 p (loops s) = [p]"
    using assms(3) by (cases "loops s") (auto simp: set_phase_def)
  show ?thesis
    using assms(1,2,4)
      startDownload_from_empty [OF assms(2), of now "item_id (queue (st s) ! 0)"]
    by (simp add: loop_head_def downloadTrackClientSide_def single_loop_def ps owns_def)
qed

lemma single_loop_resume:
  assumes "isProcessing s" and "loops s = [p]" and "phase_ok p s"
  shows "single_loop (resume now 0 out p s)"
  using assms
proof (induction now "0::nat" out p s rule: resume.induct)
  case (1 now ms s)
  then show ?case by (simp add: single_loop_head)
next
  case (2 now s)
  then show ?case by (simp add: single_loop_head)
qed (auto simp: single_loop_def owns_def transfer_failed_def finish_def set_phase_def
       all_same_filter split: outcome.splits)

lemma phase_ok_cong:
  "downloading (st s') = downloading (st s) \<Longrightarrow> phase_ok p s' = phase_ok p s"
  by (cases p) (simp_all add: owns_def)

lemma phase_ok_length: "phase_ok p s \<Longrightarrow> length (downloading (st s)) \<le> 1"
  by (cases p) (simp_all add: owns_def)

lemma single_loop_frame:
  "single_loop s \<Longrightarrow> downloading (st s') = downloading (st s) \<Longrightarrow> loops s' = loops s \<Longrightarrow>
   isProcessing s' = isProcessing s \<Longrightarrow> single_loop s'"
  by (simp add: single_loop_def phase_ok_cong [of s' s] split: list.splits)

lemma single_loop_step:
  assumes "single_loop s" and "\<not> is_Stop e"
  shows "single_loop (step e s)"
proof (cases e)
  case (Start now)
  show ?thesis
  proof (cases "isProcessing s")
    case True
    then show ?thesis using assms(1) Start by (simp add: start_def)
  next
    case False
    then have "loops s = []" and "downloading (st s) = []"
      using assms(1) by (auto simp: single_loop_def split: list.splits)
    then show ?thesis using False Start
      by (simp add: start_def single_loop_head)
  qed
next
  case (Resume now k out)
  show ?thesis
  proof (cases "k < length (loops s)")
    case True
    then obtain p where p: "loops s = [p]" "k = 0" "isProcessing s" "phase_ok p s"
      using assms(1) by (auto simp: single_loop_def split: list.splits)
    then show ?thesis using Resume by (simp add: single_loop_resume)
  next
    case False
    then show ?thesis using assms(1) Resume by simp
  qed
next
  case Stop
  then show ?thesis using assms(2) by simp
qed (simp_all add: single_loop_frame [OF assms(1)])

lemma single_loop_run:
  "single_loop s \<Longrightarrow> \<not> list_ex is_Stop evs \<Longrightarrow> single_loop (run evs s)"
  by (induction evs arbitrary: s) (auto simp: single_loop_step)

lemma single_loop_length: "single_loop s \<Longrightarrow> length (downloading (st s)) \<le> 1"
  by (auto simp: single_loop_def dest: phase_ok_length split: list.splits)

text \<open>
  Claim C3. With free capacity and a non-empty queue the scheduler starts the transfer
  of the head item as a task of its own and does not wait for it, so that with
  \<open>maxConcurrent\<close> 2, five items and one \<open>start\<close>, two items are downloading and three
  are queued. The loop of \<open>start\<close> awaits \<open>downloadTrack\<close>, which returns after the
  transfer and its rate limit sleep: from a state where the manager is idle and nothing is
  downloading, whatever happens short of a \<open>stop\<close>, at most one item is ever in
  \<open>downloading\<close>, whatever \<open>maxConcurrent\<close> is.
\<close>

theorem one_transfer_at_a_time:
  assumes "loops s = []" and "\<not> isProcessing s" and "downloading (st s) = []"
    and "\<not> list_ex is_Stop evs"
  shows "length (downloading (st (run evs s))) \<le> 1"
proof -
  have "single_loop s" using assms(1-3) by (simp add: single_loop_def)
  then have "single_loop (run evs s)" using assms(4) by (rule single_loop_run)
  then show ?thesis by (rule single_loop_length)
qed

text \<open>
  The scenario of the claim: \<open>maxConcurrent\<close> is 2, five tracks are enqueued, and
  \<open>start\<close> is called. One item is downloading and four are queued.
\<close>

theorem one_transfer_at_a_time_witness:
  "loops two_slots = [] \<and> \<not> isProcessing two_slots \<and> downloading (st two_slots) = [] \<and>
   \<not> list_ex is_Stop first_dispatch \<and>
   length (downloading (st (run first_dispatch two_slots))) \<le> 1 \<and>
   maxConcurrent (st (run first_dispatch two_slots)) = 2 \<and>
   length (downloading (st (run first_dispatch two_slots))) = 1 \<and>
   length (queue (st (run first_dispatch two_slots))) = 4"
proof -
  have h: "loops two_slots = []" "\<not> isProcessing two_slots" "downloading (st two_slots) = []"
    by (simp_all add: two_slots_def initial_system_def initial_store_def)
  have n: "\<not> list_ex is_Stop first_dispatch"
    by (simp add: first_dispatch_def)
  show ?thesis
    using h n first_dispatch_eval one_transfer_at_a_time [OF h n] by simp
qed

subsection \<open>Stopping\<close>

lemma foldl_abort_length [simp]: "length (foldl abort cs m) = length cs"
  by (induction m arbitrary: cs) (simp_all add: abort_def)










lemma updateProgress_ids [simp]:
  "item_id ` set (downloading (updateProgress i p s)) = item_id ` set (downloading s)"
  using updateProgress_downloading(2) [of i p s] by (metis set_map)










text \<open>
  Claim C7. A second \<open>stop\<close> right after a \<open>stop\<close> changes nothing, and \<open>start\<close> on a
  manager that is already processing returns without changing anything.
\<close>

theorem stop_idempotent_start_noop:
  "stop (stop s) = stop s \<and> (isProcessing s \<longrightarrow> start now s = s)"
  by (simp add: stop_def start_def)

text \<open>
  An instance: the manager is processing, with two transfers in flight.
\<close>

theorem stop_idempotent_start_noop_witness:
  "isProcessing in_flight \<and> start 5000 in_flight = in_flight \<and>
   stop (stop in_flight) = stop in_flight"
proof -
  have "isProcessing in_flight" by (simp add: in_flight_state)
  then show ?thesis using stop_idempotent_start_noop [of in_flight 5000] by simp
qed

end
